theory Spec2Isabelle
  imports Complex_Main
begin

section \<open>Syntax trees and the classifier (count.ts, countNode)\<close>

text \<open>
  The node kinds that \<open>countNode\<close> dispatches on, as members of \<open>ts.SyntaxKind\<close>.
  Every other member of the enumeration is \<open>OtherKind\<close> with its name; the \<open>switch\<close>
  has no case for them.
\<close>

datatype SyntaxKind =
    ClassDeclaration
  | ClassExpression
  | MethodDeclaration
  | GetAccessor
  | SetAccessor
  | Constructor
  | FunctionDeclaration
  | FunctionExpression
  | ArrowFunction
  | OtherKind string

text \<open>
  A \<open>ts.Node\<close>: its \<open>kind\<close> and the children that \<open>ts.forEachChild\<close> hands to the
  callback, in order.
\<close>

datatype Node = Node (kind: SyntaxKind) (children: "Node list")

text \<open>
  \<open>interface Counts\<close>. The fields are JavaScript numbers that only ever hold the result
  of adding one or adding another tally, so they are natural numbers here
  (\<open>functions'\<close> is the field \<open>functions\<close>, a reserved word of the theory language).
\<close>

record Counts =
  classes :: nat
  methods :: nat
  functions' :: nat
  arrowFunctions :: nat

definition zeroCounts :: Counts where
  "zeroCounts = \<lparr>classes = 0, methods = 0, functions' = 0, arrowFunctions = 0\<rparr>"

text \<open>
  \<open>countNode(node, counts, inClass)\<close> mutates \<open>counts\<close>; the model takes the tally and
  returns the updated one. \<open>forEachChild\<close> is \<open>ts.forEachChild(node, cb)\<close> with the
  callback \<open>(child) => countNode(child, counts, flag)\<close>: the callback returns
  \<open>undefined\<close>, so the iteration never stops early and every child is passed on, left to
  right. The class case returns after its own pass over the children; every other case
  falls out of the \<open>switch\<close> to the pass at the end of the function.
\<close>

fun countNode :: "Node \<Rightarrow> Counts \<Rightarrow> bool \<Rightarrow> Counts"
  and forEachChild :: "Node list \<Rightarrow> Counts \<Rightarrow> bool \<Rightarrow> Counts"
where
  "countNode (Node k cs) counts inClass =
     (case k of
        ClassDeclaration \<Rightarrow> forEachChild cs (counts\<lparr>classes := classes counts + 1\<rparr>) True
      | ClassExpression \<Rightarrow> forEachChild cs (counts\<lparr>classes := classes counts + 1\<rparr>) True
      | MethodDeclaration \<Rightarrow>
          forEachChild cs (if inClass then counts\<lparr>methods := methods counts + 1\<rparr> else counts) inClass
      | GetAccessor \<Rightarrow>
          forEachChild cs (if inClass then counts\<lparr>methods := methods counts + 1\<rparr> else counts) inClass
      | SetAccessor \<Rightarrow>
          forEachChild cs (if inClass then counts\<lparr>methods := methods counts + 1\<rparr> else counts) inClass
      | Constructor \<Rightarrow>
          forEachChild cs (if inClass then counts\<lparr>methods := methods counts + 1\<rparr> else counts) inClass
      | FunctionDeclaration \<Rightarrow>
          forEachChild cs (counts\<lparr>functions' := functions' counts + 1\<rparr>) inClass
      | FunctionExpression \<Rightarrow>
          forEachChild cs (if \<not> inClass then counts\<lparr>functions' := functions' counts + 1\<rparr> else counts) inClass
      | ArrowFunction \<Rightarrow>
          forEachChild cs
            (if \<not> inClass then counts\<lparr>arrowFunctions := arrowFunctions counts + 1\<rparr> else counts) inClass
      | OtherKind _ \<Rightarrow> forEachChild cs counts inClass)"
| "forEachChild [] counts flag = counts"
| "forEachChild (child # rest) counts flag = forEachChild rest (countNode child counts flag) flag"


subsection \<open>Vocabulary for statements about trees\<close>

definition isClassLike :: "SyntaxKind \<Rightarrow> bool" where
  "isClassLike k = (k = ClassDeclaration \<or> k = ClassExpression)"

definition isMethodLike :: "SyntaxKind \<Rightarrow> bool" where
  "isMethodLike k =
     (k = MethodDeclaration \<or> k = GetAccessor \<or> k = SetAccessor \<or> k = Constructor)"

text \<open>The kinds that have a case in the \<open>switch\<close> of \<open>countNode\<close>.\<close>

definition isTallied :: "SyntaxKind \<Rightarrow> bool" where
  "isTallied k = (case k of OtherKind _ \<Rightarrow> False | _ \<Rightarrow> True)"

text \<open>
  \<open>nodesOfKind P n\<close> is the number of nodes in the subtree of \<open>n\<close> (\<open>n\<close> included)
  whose kind satisfies \<open>P\<close>; \<open>nodesOfKindIn P ns\<close> is the same for a list of subtrees.
\<close>

fun nodesOfKind :: "(SyntaxKind \<Rightarrow> bool) \<Rightarrow> Node \<Rightarrow> nat"
  and nodesOfKindIn :: "(SyntaxKind \<Rightarrow> bool) \<Rightarrow> Node list \<Rightarrow> nat"
where
  "nodesOfKind P (Node k cs) = (if P k then 1 else 0) + nodesOfKindIn P cs"
| "nodesOfKindIn P [] = 0"
| "nodesOfKindIn P (n # ns) = nodesOfKind P n + nodesOfKindIn P ns"

text \<open>
  \<open>insideClassIn P ns\<close> is the number of nodes of a kind satisfying \<open>P\<close> that lie below a
  class-like node of the forest \<open>ns\<close>; \<open>outsideClassIn P ns\<close> the number of those
  that do not.
\<close>

fun insideClass :: "(SyntaxKind \<Rightarrow> bool) \<Rightarrow> Node \<Rightarrow> nat"
  and insideClassIn :: "(SyntaxKind \<Rightarrow> bool) \<Rightarrow> Node list \<Rightarrow> nat"
where
  "insideClass P (Node k cs) = (if isClassLike k then nodesOfKindIn P cs else insideClassIn P cs)"
| "insideClassIn P [] = 0"
| "insideClassIn P (n # ns) = insideClass P n + insideClassIn P ns"

fun outsideClass :: "(SyntaxKind \<Rightarrow> bool) \<Rightarrow> Node \<Rightarrow> nat"
  and outsideClassIn :: "(SyntaxKind \<Rightarrow> bool) \<Rightarrow> Node list \<Rightarrow> nat"
where
  "outsideClass P (Node k cs) =
     (if P k then 1 else 0) + (if isClassLike k then 0 else outsideClassIn P cs)"
| "outsideClassIn P [] = 0"
| "outsideClassIn P (n # ns) = outsideClass P n + outsideClassIn P ns"

section \<open>The file-level driver (count.ts, countFile)\<close>

text \<open>
  \<open>fs.readFileSync\<close> and \<open>ts.createSourceFile\<close> are collaborators outside the
  repository: both are parameters of the model, and each either throws (\<open>Inl\<close>) or
  returns (\<open>Inr\<close>). \<open>createSourceFile\<close> receives the path, the text and the script kind;
  the two constant arguments (\<open>ScriptTarget.Latest\<close>, \<open>setParentNodes = true\<close>) are left
  out.
\<close>

datatype Thrown = Thrown string

datatype ScriptKind = TS | TSX

type_synonym ReadFileSync = "string \<Rightarrow> Thrown + string"
type_synonym CreateSourceFile = "string \<Rightarrow> string \<Rightarrow> ScriptKind \<Rightarrow> Thrown + Node"

text \<open>\<open>String.prototype.endsWith\<close>.\<close>

definition endsWith :: "string \<Rightarrow> string \<Rightarrow> bool" where
  "endsWith s t = (length t \<le> length s \<and> drop (length s - length t) s = t)"

definition scriptKindOf :: "string \<Rightarrow> ScriptKind" where
  "scriptKindOf filePath = (if endsWith filePath ''.tsx'' then TSX else TS)"

text \<open>
  \<open>countFile\<close>: the \<open>try\<close> block reads, parses and walks the children of the source
  file with \<open>inClass = false\<close>; the empty \<open>catch\<close> leaves \<open>counts\<close> as it is, and a
  throw from reading or parsing happens before \<open>counts\<close> has been touched.
\<close>

definition countFile :: "ReadFileSync \<Rightarrow> CreateSourceFile \<Rightarrow> string \<Rightarrow> Counts" where
  "countFile readFileSync createSourceFile filePath =
     (case readFileSync filePath of
        Inl _ \<Rightarrow> zeroCounts
      | Inr source \<Rightarrow>
          (case createSourceFile filePath source (scriptKindOf filePath) of
             Inl _ \<Rightarrow> zeroCounts
           | Inr sourceFile \<Rightarrow> forEachChild (children sourceFile) zeroCounts False))"

section \<open>The directory walker (count.ts, walkDir)\<close>

definition SKIP_DIRS :: "string set" where
  "SKIP_DIRS = {''node_modules'', ''.next'', ''.git'', ''dist'', ''build'', ''out'', ''.turbo'',
     ''.cache'', ''coverage'', ''__pycache__'', ''.bazel-cache'', ''bazel-out'', ''.output'',
     ''.nuxt'', ''.svelte-kit''}"

text \<open>
  What \<open>fs.readdirSync(dir, {withFileTypes: true})\<close> yields, as a tree: an entry is a
  regular file (\<open>isFile()\<close>), a directory (\<open>isDirectory()\<close>) together with the entries
  that reading it returns, a directory that throws when read (together with the entries
  it holds on disk, which no call ever returns), or anything else (a symbolic link, a
  socket, ...).
\<close>

datatype Dirent =
    FileEntry string
  | DirEntry string "Dirent list"
  | UnreadableDir string "Dirent list"
  | OtherEntry string

fun entryName :: "Dirent \<Rightarrow> string" where
  "entryName (FileEntry n) = n"
| "entryName (DirEntry n _) = n"
| "entryName (UnreadableDir n _) = n"
| "entryName (OtherEntry n) = n"

text \<open>
  \<open>String.prototype.includes\<close> (\<open>includes\<close> is a reserved word of the theory language):
  \<open>p\<close> occurs in \<open>s\<close> as a contiguous substring.
\<close>

fun includes' :: "string \<Rightarrow> string \<Rightarrow> bool" where
  "includes' [] p = (p = [])"
| "includes' (c # s) p = (take (length p) (c # s) = p \<or> includes' s p)"

text \<open>\<open>excludePatterns.some((p) => relativePath.includes(p))\<close>.\<close>

definition excluded :: "string list \<Rightarrow> string \<Rightarrow> bool" where
  "excluded excludePatterns relativePath = list_ex (\<lambda>p. includes' relativePath p) excludePatterns"

text \<open>
  \<open>path.join(currentDir, entry.name)\<close> for a resolved (absolute, normalised) directory
  and an entry name, with POSIX separators; and \<open>path.relative(dir, fullPath)\<close>, built
  from the relative path of the directory being read (empty at the root).
\<close>

definition pathJoin :: "string \<Rightarrow> string \<Rightarrow> string" where
  "pathJoin currentDir n = (if currentDir = ''/'' then ''/'' @ n else currentDir @ ''/'' @ n)"

definition relJoin :: "string \<Rightarrow> string \<Rightarrow> string" where
  "relJoin rel n = (if rel = [] then n else rel @ ''/'' @ n)"

text \<open>The test \<open>/\.(ts|tsx)$/.test(entry.name) && !entry.name.endsWith(".d.ts")\<close>.\<close>

definition isSourceName :: "string \<Rightarrow> bool" where
  "isSourceName n = ((endsWith n ''.ts'' \<or> endsWith n ''.tsx'') \<and> \<not> endsWith n ''.d.ts'')"

text \<open>
  The inner function \<open>walk\<close>, applied to the entries that \<open>readdirSync\<close> returned for
  \<open>currentDir\<close>; \<open>walkEntry\<close> is the body of its \<open>for\<close> loop. The array \<open>results\<close> is
  threaded through; \<open>push\<close> appends.
\<close>

fun walk :: "string list \<Rightarrow> string \<Rightarrow> string \<Rightarrow> Dirent list \<Rightarrow> string list \<Rightarrow> string list"
  and walkEntry :: "string list \<Rightarrow> string \<Rightarrow> string \<Rightarrow> Dirent \<Rightarrow> string list \<Rightarrow> string list"
where
  "walk ex currentDir rel [] results = results"
| "walk ex currentDir rel (entry # entries) results =
     walk ex currentDir rel entries (walkEntry ex currentDir rel entry results)"
| "walkEntry ex currentDir rel (DirEntry n sub) results =
     (if n \<in> SKIP_DIRS then results
      else if excluded ex (relJoin rel n) then results
      else walk ex (pathJoin currentDir n) (relJoin rel n) sub results)"
| "walkEntry ex currentDir rel (UnreadableDir n hidden) results =
     (if n \<in> SKIP_DIRS then results
      else if excluded ex (relJoin rel n) then results
      else results)"
| "walkEntry ex currentDir rel (FileEntry n) results =
     (if isSourceName n
      then (if \<not> excluded ex (relJoin rel n) then results @ [pathJoin currentDir n] else results)
      else results)"
| "walkEntry ex currentDir rel (OtherEntry n) results = results"

text \<open>
  \<open>walkDir(dir, excludePatterns)\<close>. The first argument is what reading \<open>dir\<close> itself
  gives: \<open>None\<close> when \<open>readdirSync(dir)\<close> throws.
\<close>

definition walkDir :: "Dirent list option \<Rightarrow> string \<Rightarrow> string list \<Rightarrow> string list" where
  "walkDir listing dir excludePatterns =
     (case listing of None \<Rightarrow> [] | Some entries \<Rightarrow> walk excludePatterns dir [] entries [])"

subsection \<open>Vocabulary for statements about the walk\<close>

text \<open>
  \<open>isFileAt entries names\<close>: following \<open>names\<close> from the listing \<open>entries\<close> leads
  through readable directories to a regular file.
\<close>

fun isFileAt :: "Dirent list \<Rightarrow> string list \<Rightarrow> bool" where
  "isFileAt entries [] = False"
| "isFileAt entries [n] = (FileEntry n \<in> set entries)"
| "isFileAt entries (n # m # ms) =
     list_ex (\<lambda>e. case e of DirEntry n' sub \<Rightarrow> n' = n \<and> isFileAt sub (m # ms) | _ \<Rightarrow> False) entries"

text \<open>
  \<open>existsAt entries names\<close>: following \<open>names\<close> leads to a regular file on disk, through
  directories that can or cannot be read.
\<close>

fun existsAt :: "Dirent list \<Rightarrow> string list \<Rightarrow> bool" where
  "existsAt entries [] = False"
| "existsAt entries [n] = (FileEntry n \<in> set entries)"
| "existsAt entries (n # m # ms) =
     list_ex (\<lambda>e. case e of DirEntry n' sub \<Rightarrow> n' = n \<and> existsAt sub (m # ms)
                  | UnreadableDir n' sub \<Rightarrow> n' = n \<and> existsAt sub (m # ms)
                  | _ \<Rightarrow> False) entries"

text \<open>Every entry of the tree has a name that is not empty, as every name on disk is.\<close>

fun wellNamedEntry :: "Dirent \<Rightarrow> bool"
  and wellNamed :: "Dirent list \<Rightarrow> bool"
where
  "wellNamedEntry (FileEntry n) = (n \<noteq> [])"
| "wellNamedEntry (DirEntry n sub) = (n \<noteq> [] \<and> wellNamed sub)"
| "wellNamedEntry (UnreadableDir n sub) = (n \<noteq> [] \<and> wellNamed sub)"
| "wellNamedEntry (OtherEntry n) = (n \<noteq> [])"
| "wellNamed [] = True"
| "wellNamed (e # es) = (wellNamedEntry e \<and> wellNamed es)"

text \<open>\<open>pat\<close> occurs in \<open>s\<close> as a contiguous substring.\<close>

abbreviation occursIn :: "string \<Rightarrow> string \<Rightarrow> bool" where
  "occursIn pat s \<equiv> \<exists>u v. s = u @ pat @ v"

text \<open>The bare name of a directory given by its path: what follows the last separator.\<close>

definition basename :: "string \<Rightarrow> string" where
  "basename path = rev (takeWhile (\<lambda>c. c \<noteq> CHR ''/'') (rev path))"

text \<open>
  \<open>collects ex rel entries names\<close>: the same descent, with the tests of the walk made at
  every step, \<open>rel\<close> being the relative path of the directory whose listing is
  \<open>entries\<close>.
\<close>

fun collects :: "string list \<Rightarrow> string \<Rightarrow> Dirent list \<Rightarrow> string list \<Rightarrow> bool" where
  "collects ex rel entries [] = False"
| "collects ex rel entries [n] =
     (FileEntry n \<in> set entries \<and> isSourceName n \<and> \<not> excluded ex (relJoin rel n))"
| "collects ex rel entries (n # m # ms) =
     (n \<notin> SKIP_DIRS \<and> \<not> excluded ex (relJoin rel n) \<and>
      list_ex (\<lambda>e. case e of DirEntry n' sub \<Rightarrow> n' = n \<and> collects ex (relJoin rel n) sub (m # ms)
                   | _ \<Rightarrow> False) entries)"

section \<open>The aggregator and reporter (count.ts, top-level script)\<close>

text \<open>The body of the loop over \<open>files\<close>: four \<open>+=\<close> on \<open>totals\<close>.\<close>

definition addCounts :: "Counts \<Rightarrow> Counts \<Rightarrow> Counts" where
  "addCounts totals counts =
     \<lparr>classes = classes totals + classes counts,
      methods = methods totals + methods counts,
      functions' = functions' totals + functions' counts,
      arrowFunctions = arrowFunctions totals + arrowFunctions counts\<rparr>"

text \<open>\<open>totals\<close> after \<open>for (const file of files) { ... }\<close>, starting from all zeros.\<close>

definition processFiles :: "ReadFileSync \<Rightarrow> CreateSourceFile \<Rightarrow> string list \<Rightarrow> Counts" where
  "processFiles readFileSync createSourceFile files =
     foldl (\<lambda>totals file. addCounts totals (countFile readFileSync createSourceFile file))
       zeroCounts files"

definition oopTotal :: "Counts \<Rightarrow> nat" where
  "oopTotal totals = classes totals + methods totals"

definition fpTotal :: "Counts \<Rightarrow> nat" where
  "fpTotal totals = functions' totals + arrowFunctions totals"

subsection \<open>JavaScript numbers and their built-in operations\<close>

text \<open>
  A JavaScript number is an IEEE 754 double: not-a-number, an infinity, or a finite value,
  kept here as the rational it denotes. The tallies are integers below \<open>2 ^ 53\<close>, which
  doubles hold exactly.
\<close>

datatype Number = NaN | PosInfinity | NegInfinity | Finite rat

definition digitChar :: "nat \<Rightarrow> char" where
  "digitChar d = ''0123456789'' ! d"

text \<open>The decimal digits of an integer, as a template literal prints an integral number.\<close>

function showNat :: "nat \<Rightarrow> string" where
  "showNat n = (if n < 10 then [digitChar n] else showNat (n div 10) @ [digitChar (n mod 10)])"
  by pat_completeness auto
termination
  by (relation "measure id") auto

declare showNat.simps [simp del]

function bitLength :: "nat \<Rightarrow> nat" where
  "bitLength n = (if n = 0 then 0 else Suc (bitLength (n div 2)))"
  by pat_completeness auto
termination
  by (relation "measure id") auto

declare bitLength.simps [simp del]

text \<open>\<open>n / m\<close> rounded to the nearest integer, a tie going to the even one.\<close>

definition roundHalfEven :: "nat \<Rightarrow> nat \<Rightarrow> nat" where
  "roundHalfEven n m =
     (let q = n div m; r = n mod m in
      if 2 * r < m then q else if m < 2 * r then q + 1 else if even q then q else q + 1)"

text \<open>
  The operator \<open>/\<close> on two integral numbers \<open>a\<close> and \<open>b > 0\<close>: the double nearest to the
  quotient. \<open>e\<close> is the binary exponent of the quotient (\<open>2 ^ e \<le> a / b < 2 ^ (e + 1)\<close>),
  and the quotient is rounded to 53 significant bits, a tie going to the even
  significand. Overflow and subnormal results do not arise for operands below \<open>2 ^ 53\<close>.
\<close>

definition jsDivide :: "nat \<Rightarrow> nat \<Rightarrow> rat" where
  "jsDivide a b =
     (if a = 0 then 0 else
      let d = int (bitLength a) - int (bitLength b);
          e = (if (if 0 \<le> d then b * 2 ^ nat d \<le> a else b \<le> a * 2 ^ nat (- d))
               then d else d - 1);
          s = 52 - e;
          sig = (if 0 \<le> s then roundHalfEven (a * 2 ^ nat s) b
                 else roundHalfEven a (b * 2 ^ nat (- s)))
      in if 0 \<le> s then of_nat sig / 2 ^ nat s else of_nat sig * 2 ^ nat (- s))"

text \<open>
  \<open>Number.prototype.toFixed(2)\<close> on a finite \<open>x\<close> with \<open>0 \<le> x < 10 ^ 21\<close>: the integer
  \<open>n\<close> with \<open>n / 100\<close> nearest to \<open>x\<close>, the larger one at a tie, printed with two
  decimals.
\<close>

definition toFixed2 :: "rat \<Rightarrow> string" where
  "toFixed2 x =
     (let n = nat \<lfloor>x * 100 + 1 / 2\<rfloor>
      in showNat (n div 100) @ ''.'' @ [digitChar (n mod 100 div 10), digitChar (n mod 10)])"

definition isDigit :: "char \<Rightarrow> bool" where
  "isDigit c = (c \<in> set ''0123456789'')"

definition digitValue :: "char \<Rightarrow> nat" where
  "digitValue c = length (takeWhile (\<lambda>d. d \<noteq> c) ''0123456789'')"

definition digitsValue :: "string \<Rightarrow> nat" where
  "digitsValue ds = foldl (\<lambda>v c. 10 * v + digitValue c) 0 ds"

text \<open>
  \<open>parseFloat\<close>: leading white space is dropped, then the longest prefix that is a
  decimal literal is read: an optional sign, then \<open>Infinity\<close> or digits with an optional
  fraction. When there is no such prefix the result is \<open>NaN\<close>. The finite result is the
  double nearest to the decimal. Exponent parts are not modelled: \<open>toFixed(2)\<close> prints
  none below \<open>10 ^ 21\<close>.
\<close>

definition parseUnsigned :: "string \<Rightarrow> Number" where
  "parseUnsigned u =
     (if take 8 u = ''Infinity'' then PosInfinity
      else
        let ip = takeWhile isDigit u;
            r = dropWhile isDigit u;
            fp = (case r of c # r' \<Rightarrow> if c = CHR ''.'' then takeWhile isDigit r' else [] | [] \<Rightarrow> [])
        in if ip = [] \<and> fp = [] then NaN
           else Finite (jsDivide (digitsValue (ip @ fp)) (10 ^ length fp)))"

definition negate :: "Number \<Rightarrow> Number" where
  "negate x = (case x of NaN \<Rightarrow> NaN | PosInfinity \<Rightarrow> NegInfinity | NegInfinity \<Rightarrow> PosInfinity
               | Finite q \<Rightarrow> Finite (- q))"

definition parseFloat :: "string \<Rightarrow> Number" where
  "parseFloat s =
     (case dropWhile (\<lambda>c. c \<in> set [CHR '' '', CHR 0x09, CHR 0x0A, CHR 0x0B, CHR 0x0C, CHR 0x0D]) s of
        [] \<Rightarrow> NaN
      | c # u \<Rightarrow>
          if c = CHR ''-'' then negate (parseUnsigned u)
          else if c = CHR ''+'' then parseUnsigned u
          else parseUnsigned (c # u))"

subsection \<open>The report\<close>

text \<open>\<open>const ratio = fpTotal > 0 ? (oopTotal / fpTotal).toFixed(2) : "inf"\<close>.\<close>

definition ratio :: "Counts \<Rightarrow> string" where
  "ratio totals =
     (if 0 < fpTotal totals then toFixed2 (jsDivide (oopTotal totals) (fpTotal totals))
      else ''inf'')"

text \<open>
  The document that \<open>JSON.stringify\<close> writes, as a tree. A number that is \<open>NaN\<close> or
  infinite is serialised as \<open>null\<close>; a finite one as itself.
\<close>

datatype Json = JNull | JNumber rat | JString string | JObject "(string \<times> Json) list"

definition numberToJson :: "Number \<Rightarrow> Json" where
  "numberToJson x = (case x of Finite q \<Rightarrow> JNumber q | _ \<Rightarrow> JNull)"

definition jsonField :: "string \<Rightarrow> Json \<Rightarrow> Json option" where
  "jsonField key doc = (case doc of JObject kvs \<Rightarrow> map_of kvs key | _ \<Rightarrow> None)"

definition jsonReport :: "string \<Rightarrow> string list \<Rightarrow> Counts \<Rightarrow> Json" where
  "jsonReport targetDir files totals =
     JObject
       [(''directory'', JString targetDir),
        (''files'', JNumber (of_nat (length files))),
        (''oop'', JObject
           [(''total'', JNumber (of_nat (oopTotal totals))),
            (''classes'', JNumber (of_nat (classes totals))),
            (''methods'', JNumber (of_nat (methods totals)))]),
        (''fp'', JObject
           [(''total'', JNumber (of_nat (fpTotal totals))),
            (''functions'', JNumber (of_nat (functions' totals))),
            (''arrowFunctions'', JNumber (of_nat (arrowFunctions totals)))]),
        (''ratio'', numberToJson (parseFloat (ratio totals)))]"

text \<open>The four \<open>console.log\<close> lines of text mode.\<close>

definition textReport :: "string list \<Rightarrow> Counts \<Rightarrow> string list" where
  "textReport files totals =
     [''OOP: '' @ showNat (oopTotal totals) @ '' ('' @ showNat (classes totals) @ '' classes + ''
        @ showNat (methods totals) @ '' methods)'',
      ''FP:  '' @ showNat (fpTotal totals) @ '' ('' @ showNat (functions' totals)
        @ '' functions + '' @ showNat (arrowFunctions totals) @ '' arrows)'',
      ''Ratio (OOP:FP): '' @ ratio totals @ '':1'',
      ''Files: '' @ showNat (length files)]"

text \<open>\<open>Array.prototype.join\<close>.\<close>

fun joinWith :: "string \<Rightarrow> string list \<Rightarrow> string" where
  "joinWith sep [] = []"
| "joinWith sep [x] = x"
| "joinWith sep (x # y # ys) = x @ sep @ joinWith sep (y # ys)"

datatype Output = Lines "string list" | Document Json

record Run =
  stderr :: "string list"
  stdout :: Output

text \<open>
  The script from \<open>path.resolve\<close> on: \<open>targetDir\<close> is the resolved directory,
  \<open>listing\<close> what reading it gives, \<open>excludePatterns\<close> and \<open>jsonOutput\<close> the parsed
  options.
\<close>

definition main ::
  "Dirent list option \<Rightarrow> ReadFileSync \<Rightarrow> CreateSourceFile \<Rightarrow> string \<Rightarrow> string list \<Rightarrow> bool \<Rightarrow> Run"
where
  "main listing readFileSync createSourceFile targetDir excludePatterns jsonOutput =
     (let files = walkDir listing targetDir excludePatterns;
          totals = processFiles readFileSync createSourceFile files
      in \<lparr>stderr =
            (if \<not> jsonOutput
             then [''Scanning: '' @ targetDir]
               @ (if excludePatterns \<noteq> [] then [''Excluding: '' @ joinWith '', '' excludePatterns]
                  else [])
               @ [''Found '' @ showNat (length files) @ '' .ts/.tsx files'']
             else []),
          stdout =
            (if jsonOutput then Document (jsonReport targetDir files totals)
             else Lines (textReport files totals))\<rparr>)"

section \<open>An example tree of files\<close>

text \<open>
  A project at \<open>/r\<close>, used to run the theorems on: two sources under \<open>src\<close>, next to
  a declaration file, a text file and a directory of generated code; a dependency
  folder; a directory that cannot be read, holding a source; and a symbolic link.
\<close>

definition exampleEntries :: "Dirent list" where
  "exampleEntries =
     [DirEntry ''src''
        [FileEntry ''a.ts'', FileEntry ''b.tsx'', FileEntry ''types.d.ts'', FileEntry ''notes.md'',
         DirEntry ''generated'' [FileEntry ''g.ts'']],
      DirEntry ''node_modules'' [FileEntry ''x.ts''],
      UnreadableDir ''secret'' [FileEntry ''s.ts''],
      OtherEntry ''link.ts'']"

text \<open>\<open>class A { m() {} n() {} }\<close>, as the parser gives it.\<close>

definition exampleTreeA :: Node where
  "exampleTreeA =
     Node (OtherKind ''SourceFile'')
       [Node ClassDeclaration
          [Node (OtherKind ''Identifier'') [],
           Node MethodDeclaration [Node (OtherKind ''Identifier'') [], Node (OtherKind ''Block'') []],
           Node MethodDeclaration [Node (OtherKind ''Identifier'') [], Node (OtherKind ''Block'') []]],
        Node (OtherKind ''EndOfFileToken'') []]"

text \<open>
  Three function declarations and five arrow expressions outside any class, one arrow
  being the body of another.
\<close>

definition exampleTreeB :: Node where
  "exampleTreeB =
     Node (OtherKind ''SourceFile'')
       [Node FunctionDeclaration [Node (OtherKind ''Block'') []],
        Node FunctionDeclaration [Node (OtherKind ''Block'') []],
        Node FunctionDeclaration [Node (OtherKind ''Block'') []],
        Node (OtherKind ''VariableStatement'')
          [Node ArrowFunction [], Node ArrowFunction [], Node ArrowFunction [],
           Node ArrowFunction [Node ArrowFunction []]],
        Node (OtherKind ''EndOfFileToken'') []]"

definition exampleRead :: ReadFileSync where
  "exampleRead p =
     (if p = ''/r/src/a.ts'' then Inr ''A''
      else if p = ''/r/src/b.tsx'' then Inr ''B''
      else Inl (Thrown ''ENOENT''))"

definition exampleParse :: CreateSourceFile where
  "exampleParse p source k =
     (if source = ''A'' \<and> k = TS then Inr exampleTreeA
      else if source = ''B'' \<and> k = TSX then Inr exampleTreeB
      else Inl (Thrown ''unexpected''))"

section \<open>Properties of the classifier\<close>

lemma forEachChild_append:
  "forEachChild (xs @ ys) c b = forEachChild ys (forEachChild xs c b) b"
  by (induction xs arbitrary: c) simp_all

lemma inClass_tally:
  "b \<Longrightarrow> countNode n c b =
     c\<lparr>classes := classes c + nodesOfKind isClassLike n,
       methods := methods c + nodesOfKind isMethodLike n,
       functions' := functions' c + nodesOfKind (\<lambda>k. k = FunctionDeclaration) n\<rparr>"
  "b \<Longrightarrow> forEachChild ns c b =
     c\<lparr>classes := classes c + nodesOfKindIn isClassLike ns,
       methods := methods c + nodesOfKindIn isMethodLike ns,
       functions' := functions' c + nodesOfKindIn (\<lambda>k. k = FunctionDeclaration) ns\<rparr>"
proof (induction n c b and ns c b rule: countNode_forEachChild.induct)
  case (1 k cs c b)
  then show ?case
    by (cases k) (simp_all add: isClassLike_def isMethodLike_def)
next
  case (2 c b)
  then show ?case by simp
next
  case (3 n ns c b)
  then show ?case by simp
qed

lemma outside_tally:
  "\<not> b \<Longrightarrow> nodesOfKind isClassLike n = 0 \<Longrightarrow> countNode n c b =
     c\<lparr>functions' := functions' c
          + nodesOfKind (\<lambda>k. k = FunctionDeclaration \<or> k = FunctionExpression) n,
       arrowFunctions := arrowFunctions c + nodesOfKind (\<lambda>k. k = ArrowFunction) n\<rparr>"
  "\<not> b \<Longrightarrow> nodesOfKindIn isClassLike ns = 0 \<Longrightarrow> forEachChild ns c b =
     c\<lparr>functions' := functions' c
          + nodesOfKindIn (\<lambda>k. k = FunctionDeclaration \<or> k = FunctionExpression) ns,
       arrowFunctions := arrowFunctions c + nodesOfKindIn (\<lambda>k. k = ArrowFunction) ns\<rparr>"
proof (induction n c b and ns c b rule: countNode_forEachChild.induct)
  case (1 k cs c b)
  then show ?case
    by (cases k) (simp_all add: isClassLike_def)
next
  case (2 c b)
  then show ?case by simp
next
  case (3 n ns c b)
  then show ?case by simp
qed

lemma plain_unchanged:
  "nodesOfKind isTallied n = 0 \<Longrightarrow> countNode n c b = c"
  "nodesOfKindIn isTallied ns = 0 \<Longrightarrow> forEachChild ns c b = c"
proof (induction n c b and ns c b rule: countNode_forEachChild.induct)
  case (1 k cs c b)
  then show ?case
    by (cases k) (simp_all add: isTallied_def)
next
  case (2 c b)
  then show ?case by simp
next
  case (3 n ns c b)
  then show ?case by simp
qed

lemma nodesOfKind_mono:
  "(\<And>k. P k \<Longrightarrow> Q k) \<Longrightarrow> nodesOfKind Q n = 0 \<Longrightarrow> nodesOfKind P n = 0"
  "(\<And>k. P k \<Longrightarrow> Q k) \<Longrightarrow> nodesOfKindIn Q ns = 0 \<Longrightarrow> nodesOfKindIn P ns = 0"
proof (induction P n and P ns rule: nodesOfKind_nodesOfKindIn.induct)
  case (1 P k cs)
  then show ?case by (auto split: if_splits)
next
  case (2 P)
  then show ?case by simp
next
  case (3 P n ns)
  then show ?case by simp
qed

lemma nodesOfKind_disj:
  "(\<And>k. \<not> (P k \<and> Q k)) \<Longrightarrow>
     nodesOfKind (\<lambda>k. P k \<or> Q k) n = nodesOfKind P n + nodesOfKind Q n"
  "(\<And>k. \<not> (P k \<and> Q k)) \<Longrightarrow>
     nodesOfKindIn (\<lambda>k. P k \<or> Q k) ns = nodesOfKindIn P ns + nodesOfKindIn Q ns"
proof (induction P n and P ns rule: nodesOfKind_nodesOfKindIn.induct)
  case (1 P k cs)
  then show ?case by auto
next
  case (2 P)
  then show ?case by simp
next
  case (3 P n ns)
  then show ?case by simp
qed

lemma file_tally:
  "\<not> b \<Longrightarrow> countNode n c b =
     c\<lparr>classes := classes c + nodesOfKind isClassLike n,
       methods := methods c + insideClass isMethodLike n,
       functions' := functions' c + nodesOfKind (\<lambda>k. k = FunctionDeclaration) n
          + outsideClass (\<lambda>k. k = FunctionExpression) n,
       arrowFunctions := arrowFunctions c + outsideClass (\<lambda>k. k = ArrowFunction) n\<rparr>"
  "\<not> b \<Longrightarrow> forEachChild ns c b =
     c\<lparr>classes := classes c + nodesOfKindIn isClassLike ns,
       methods := methods c + insideClassIn isMethodLike ns,
       functions' := functions' c + nodesOfKindIn (\<lambda>k. k = FunctionDeclaration) ns
          + outsideClassIn (\<lambda>k. k = FunctionExpression) ns,
       arrowFunctions := arrowFunctions c + outsideClassIn (\<lambda>k. k = ArrowFunction) ns\<rparr>"
proof (induction n c b and ns c b rule: countNode_forEachChild.induct)
  case (1 k cs c b)
  show ?case
  proof (cases "isClassLike k")
    case True
    then have k: "k = ClassDeclaration \<or> k = ClassExpression"
      by (simp add: isClassLike_def)
    then have pass: "countNode (Node k cs) c b = forEachChild cs (c\<lparr>classes := classes c + 1\<rparr>) True"
      by auto
    have other: "k \<noteq> FunctionDeclaration" "k \<noteq> FunctionExpression" "k \<noteq> ArrowFunction"
      using k by auto
    show ?thesis
      unfolding pass by (simp add: inClass_tally(2) True other)
  next
    case False
    then show ?thesis
      using 1 by (cases k) (simp_all add: isClassLike_def isMethodLike_def)
  qed
next
  case (2 c b)
  then show ?case by simp
next
  case (3 n ns c b)
  then show ?case by simp
qed

lemma outsideClass_le:
  "outsideClass P n \<le> nodesOfKind P n"
  "outsideClassIn P ns \<le> nodesOfKindIn P ns"
proof (induction P n and P ns rule: nodesOfKind_nodesOfKindIn.induct)
  case (1 P k cs)
  then show ?case by simp
next
  case (2 P)
  then show ?case by simp
next
  case (3 P n ns)
  then show ?case by simp
qed

section \<open>Properties of the driver and the reporter\<close>

lemma countFile_failure:
  "readFileSync filePath = Inl e \<Longrightarrow> countFile readFileSync createSourceFile filePath = zeroCounts"
  "readFileSync filePath = Inr source \<Longrightarrow>
   createSourceFile filePath source (scriptKindOf filePath) = Inl e \<Longrightarrow>
   countFile readFileSync createSourceFile filePath = zeroCounts"
  by (simp_all add: countFile_def)

lemma foldl_addCounts:
  "foldl (\<lambda>totals file. addCounts totals (f file)) t files =
     \<lparr>classes = classes t + (\<Sum>file\<leftarrow>files. classes (f file)),
      methods = methods t + (\<Sum>file\<leftarrow>files. methods (f file)),
      functions' = functions' t + (\<Sum>file\<leftarrow>files. functions' (f file)),
      arrowFunctions = arrowFunctions t + (\<Sum>file\<leftarrow>files. arrowFunctions (f file))\<rparr>"
  by (induction files arbitrary: t) (simp_all add: addCounts_def)

lemma processFiles_sums:
  "processFiles rd parse files =
     \<lparr>classes = (\<Sum>file\<leftarrow>files. classes (countFile rd parse file)),
      methods = (\<Sum>file\<leftarrow>files. methods (countFile rd parse file)),
      functions' = (\<Sum>file\<leftarrow>files. functions' (countFile rd parse file)),
      arrowFunctions = (\<Sum>file\<leftarrow>files. arrowFunctions (countFile rd parse file))\<rparr>"
  by (simp add: processFiles_def foldl_addCounts zeroCounts_def)

lemma showNat_0: "showNat 0 = ''0''"
  by (simp add: showNat.simps digitChar_def)

lemma parseFloat_inf: "parseFloat ''inf'' = NaN"
  by (simp add: parseFloat_def parseUnsigned_def isDigit_def)

lemma toFixed2_three_eighths: "toFixed2 (jsDivide 3 8) = ''0.38''"
proof -
  have q: "jsDivide 3 8 = 3 / 8"
    by (simp add: jsDivide_def roundHalfEven_def Let_def bitLength.simps)
  show ?thesis
    unfolding q by (simp add: toFixed2_def Let_def showNat.simps digitChar_def)
qed

lemma parseFloat_038: "parseFloat ''0.38'' = Finite (jsDivide 38 100)"
  by (simp add: parseFloat_def parseUnsigned_def isDigit_def digitsValue_def digitValue_def Let_def)

text \<open>The double that the literal \<open>0.38\<close> denotes.\<close>

lemma jsDivide_38_100: "jsDivide 38 100 = 3422735716801577 / 9007199254740992"
  by (simp add: jsDivide_def roundHalfEven_def Let_def bitLength.simps)

text \<open>
  It lies within half a unit in the last place of 38/100 (doubles between 1/4 and 1/2
  are \<open>2 ^ 54\<close>ths), so it is the double nearest to it.
\<close>

lemma nearest_038:
  "\<bar>(3422735716801577 / 9007199254740992 :: rat) - 38 / 100\<bar> < 1 / 2 ^ 55"
  by simp

section \<open>Properties of the walker\<close>

lemma collects_Cons:
  "collects ex rel (e # es) comps \<longleftrightarrow> collects ex rel [e] comps \<or> collects ex rel es comps"
proof (cases comps)
  case Nil
  then show ?thesis by simp
next
  case (Cons n ms)
  then show ?thesis by (cases ms) auto
qed

lemma collects_Nil: "\<not> collects ex rel [] comps"
proof (cases comps)
  case Nil
  then show ?thesis by simp
next
  case (Cons n ms)
  then show ?thesis by (cases ms) auto
qed

lemma collects_file:
  "collects ex rel [FileEntry n] comps \<longleftrightarrow>
     comps = [n] \<and> isSourceName n \<and> \<not> excluded ex (relJoin rel n)"
proof (cases comps)
  case Nil
  then show ?thesis by simp
next
  case (Cons n' ms)
  then show ?thesis by (cases ms) auto
qed

lemma collects_dir:
  "collects ex rel [DirEntry n sub] comps \<longleftrightarrow>
     n \<notin> SKIP_DIRS \<and> \<not> excluded ex (relJoin rel n) \<and>
     (\<exists>rest. comps = n # rest \<and> collects ex (relJoin rel n) sub rest)"
proof (cases comps)
  case Nil
  then show ?thesis by simp
next
  case (Cons n' ms)
  then show ?thesis by (cases ms) auto
qed

lemma collects_other:
  "\<not> collects ex rel [UnreadableDir n hidden] comps" "\<not> collects ex rel [OtherEntry n] comps"
proof -
  show "\<not> collects ex rel [UnreadableDir n hidden] comps"
  proof (cases comps)
    case Nil
    then show ?thesis by simp
  next
    case (Cons n' ms)
    then show ?thesis by (cases ms) auto
  qed
  show "\<not> collects ex rel [OtherEntry n] comps"
  proof (cases comps)
    case Nil
    then show ?thesis by simp
  next
    case (Cons n' ms)
    then show ?thesis by (cases ms) auto
  qed
qed

lemma walk_collects:
  "p \<in> set (walk ex cur rel es results) \<longleftrightarrow>
     p \<in> set results \<or> (\<exists>comps. p = foldl pathJoin cur comps \<and> collects ex rel es comps)"
  "p \<in> set (walkEntry ex cur rel e results) \<longleftrightarrow>
     p \<in> set results \<or> (\<exists>comps. p = foldl pathJoin cur comps \<and> collects ex rel [e] comps)"
proof (induction ex cur rel es results and ex cur rel e results rule: walk_walkEntry.induct)
  case (1 ex currentDir rel results)
  then show ?case by (simp add: collects_Nil)
next
  case (2 ex currentDir rel entry entries results)
  then show ?case
    by (simp add: collects_Cons [of ex rel entry entries]) blast
next
  case (3 ex currentDir rel n sub results)
  show ?case
  proof (cases "n \<in> SKIP_DIRS \<or> excluded ex (relJoin rel n)")
    case True
    then show ?thesis by (auto simp: collects_dir)
  next
    case False
    then have "p \<in> set (walkEntry ex currentDir rel (DirEntry n sub) results) \<longleftrightarrow>
        p \<in> set results \<or>
        (\<exists>rest. p = foldl pathJoin (pathJoin currentDir n) rest \<and> collects ex (relJoin rel n) sub rest)"
      using 3 by simp
    also have "(\<exists>rest. p = foldl pathJoin (pathJoin currentDir n) rest \<and>
          collects ex (relJoin rel n) sub rest) \<longleftrightarrow>
        (\<exists>comps. p = foldl pathJoin currentDir comps \<and> collects ex rel [DirEntry n sub] comps)"
    proof
      assume "\<exists>rest. p = foldl pathJoin (pathJoin currentDir n) rest \<and>
          collects ex (relJoin rel n) sub rest"
      then obtain rest where "p = foldl pathJoin currentDir (n # rest)"
        and "collects ex rel [DirEntry n sub] (n # rest)"
        using False by (auto simp: collects_dir)
      then show "\<exists>comps. p = foldl pathJoin currentDir comps \<and>
          collects ex rel [DirEntry n sub] comps"
        by blast
    next
      assume "\<exists>comps. p = foldl pathJoin currentDir comps \<and>
          collects ex rel [DirEntry n sub] comps"
      then obtain rest where "p = foldl pathJoin currentDir (n # rest)"
        and "collects ex (relJoin rel n) sub rest"
        by (auto simp: collects_dir)
      then show "\<exists>rest. p = foldl pathJoin (pathJoin currentDir n) rest \<and>
          collects ex (relJoin rel n) sub rest"
        by auto
    qed
    finally show ?thesis .
  qed
next
  case (4 ex currentDir rel n results)
  then show ?case by (simp add: collects_other)
next
  case (5 ex currentDir rel n results)
  then show ?case by (auto simp: collects_file)
next
  case (6 ex currentDir rel n results)
  then show ?case by (simp add: collects_other)
qed

lemma ball_from_one_Suc:
  assumes "0 < k"
  shows "(\<forall>i\<in>{1..<Suc k}. Q i) \<longleftrightarrow> Q 1 \<and> (\<forall>j\<in>{1..<k}. Q (Suc j))"
proof
  assume all: "\<forall>i\<in>{1..<Suc k}. Q i"
  show "Q 1 \<and> (\<forall>j\<in>{1..<k}. Q (Suc j))"
    using all assms by auto
next
  assume rhs: "Q 1 \<and> (\<forall>j\<in>{1..<k}. Q (Suc j))"
  show "\<forall>i\<in>{1..<Suc k}. Q i"
  proof
    fix i
    assume i: "i \<in> {1..<Suc k}"
    show "Q i"
    proof (cases "i = 1")
      case True
      then show ?thesis using rhs by simp
    next
      case False
      then obtain j where "i = Suc j" "j \<in> {1..<k}"
        using i by (cases i) auto
      then show ?thesis using rhs by simp
    qed
  qed
qed

lemma list_ex_DirEntry:
  "list_ex (\<lambda>e. case e of DirEntry n' sub \<Rightarrow> n' = n \<and> P sub | _ \<Rightarrow> False) es \<longleftrightarrow>
     (\<exists>sub. DirEntry n sub \<in> set es \<and> P sub)"
  by (induction es) (auto split: Dirent.splits)

lemma collects_iff:
  "collects ex rel es comps \<longleftrightarrow>
     isFileAt es comps \<and> isSourceName (last comps) \<and> \<not> excluded ex (foldl relJoin rel comps) \<and>
     (\<forall>i\<in>{1..<length comps}.
        last (take i comps) \<notin> SKIP_DIRS \<and> \<not> excluded ex (foldl relJoin rel (take i comps)))"
proof (induction comps arbitrary: rel es)
  case Nil
  then show ?case by simp
next
  case (Cons n ms)
  show ?case
  proof (cases ms)
    case Nil
    then show ?thesis by simp
  next
    case (Cons m ms')
    let ?Q = "\<lambda>r cs i. last (take i cs) \<notin> SKIP_DIRS \<and> \<not> excluded ex (foldl relJoin r (take i cs))"
    have shift: "(\<forall>i\<in>{1..<length (n # ms)}. ?Q rel (n # ms) i) \<longleftrightarrow>
        (n \<notin> SKIP_DIRS \<and> \<not> excluded ex (relJoin rel n)) \<and>
        (\<forall>j\<in>{1..<length ms}. ?Q (relJoin rel n) ms j)"
    proof -
      have "0 < length ms" using Cons by simp
      then have "(\<forall>i\<in>{1..<length (n # ms)}. ?Q rel (n # ms) i) \<longleftrightarrow>
          ?Q rel (n # ms) 1 \<and> (\<forall>j\<in>{1..<length ms}. ?Q rel (n # ms) (Suc j))"
        using ball_from_one_Suc [of "length ms" "?Q rel (n # ms)"] by simp
      moreover have "?Q rel (n # ms) 1 \<longleftrightarrow> n \<notin> SKIP_DIRS \<and> \<not> excluded ex (relJoin rel n)"
        by simp
      moreover have "?Q rel (n # ms) (Suc j) \<longleftrightarrow> ?Q (relJoin rel n) ms j" if "j \<in> {1..<length ms}" for j
      proof -
        have "take j ms \<noteq> []" using that Cons by auto
        then show ?thesis by simp
      qed
      ultimately show ?thesis by simp
    qed
    have "collects ex rel es (n # ms) \<longleftrightarrow>
        n \<notin> SKIP_DIRS \<and> \<not> excluded ex (relJoin rel n) \<and>
        (\<exists>sub. DirEntry n sub \<in> set es \<and> collects ex (relJoin rel n) sub ms)"
      unfolding Cons by (simp add: list_ex_DirEntry)
    also have "\<dots> \<longleftrightarrow>
        n \<notin> SKIP_DIRS \<and> \<not> excluded ex (relJoin rel n) \<and>
        (\<exists>sub. DirEntry n sub \<in> set es \<and> isFileAt sub ms) \<and>
        isSourceName (last ms) \<and> \<not> excluded ex (foldl relJoin (relJoin rel n) ms) \<and>
        (\<forall>j\<in>{1..<length ms}. ?Q (relJoin rel n) ms j)"
      by (subst Cons.IH) blast
    also have "(\<exists>sub. DirEntry n sub \<in> set es \<and> isFileAt sub ms) \<longleftrightarrow> isFileAt es (n # ms)"
      unfolding Cons by (simp add: list_ex_DirEntry)
    finally show ?thesis
      using shift Cons by auto
  qed
qed

lemma endsWith_iff: "endsWith s t \<longleftrightarrow> (\<exists>u. s = u @ t)"
proof
  assume "endsWith s t"
  then have "s = take (length s - length t) s @ t"
    by (metis append_take_drop_id endsWith_def)
  then show "\<exists>u. s = u @ t" ..
next
  assume "\<exists>u. s = u @ t"
  then show "endsWith s t"
    by (auto simp: endsWith_def)
qed

lemma take_eq_iff_prefix: "take (length p) s = p \<longleftrightarrow> (\<exists>v. s = p @ v)"
proof
  assume "take (length p) s = p"
  then have "s = p @ drop (length p) s"
    by (metis append_take_drop_id)
  then show "\<exists>v. s = p @ v" ..
next
  assume "\<exists>v. s = p @ v"
  then show "take (length p) s = p" by auto
qed

lemma includes'_iff: "includes' s p \<longleftrightarrow> occursIn p s"
proof (induction s)
  case Nil
  then show ?case by auto
next
  case (Cons c s)
  have "occursIn p (c # s) \<longleftrightarrow> (\<exists>v. c # s = p @ v) \<or> occursIn p s"
  proof
    assume "occursIn p (c # s)"
    then obtain u v where uv: "c # s = u @ p @ v" by blast
    show "(\<exists>v. c # s = p @ v) \<or> occursIn p s"
    proof (cases u)
      case Nil
      then show ?thesis using uv by auto
    next
      case (Cons a u')
      then have "s = u' @ p @ v" using uv by simp
      then show ?thesis by blast
    qed
  next
    assume "(\<exists>v. c # s = p @ v) \<or> occursIn p s"
    then show "occursIn p (c # s)"
    proof
      assume "\<exists>v. c # s = p @ v"
      then obtain v where "c # s = [] @ p @ v" by auto
      then show ?thesis by blast
    next
      assume "occursIn p s"
      then obtain u v where "s = u @ p @ v" by blast
      then have "c # s = (c # u) @ p @ v" by simp
      then show ?thesis by blast
    qed
  qed
  then show ?case
    using Cons.IH by (simp add: take_eq_iff_prefix [of p "c # s"])
qed

lemma excluded_iff: "excluded ex rel \<longleftrightarrow> (\<exists>pat\<in>set ex. occursIn pat rel)"
  by (simp add: excluded_def list_ex_iff includes'_iff)

lemma foldl_relJoin:
  assumes "\<forall>n\<in>set names. n \<noteq> []"
  shows "foldl relJoin rel names =
           (if names = [] then rel else if rel = [] then joinWith ''/'' names
            else rel @ ''/'' @ joinWith ''/'' names)"
  using assms
proof (induction names arbitrary: rel)
  case Nil
  then show ?case by simp
next
  case (Cons n ms)
  then have n: "n \<noteq> []" and ms: "\<forall>m\<in>set ms. m \<noteq> []"
    by simp_all
  have r: "relJoin rel n \<noteq> []"
    using n by (simp add: relJoin_def)
  show ?case
  proof (cases ms)
    case Nil
    then show ?thesis by (simp add: relJoin_def)
  next
    case (Cons m ms')
    have "foldl relJoin rel (n # ms) = foldl relJoin (relJoin rel n) ms"
      by simp
    also have "\<dots> = relJoin rel n @ ''/'' @ joinWith ''/'' ms"
      using Cons.IH [OF ms, of "relJoin rel n"] r Cons by simp
    also have "\<dots> = (if n # ms = [] then rel else if rel = [] then joinWith ''/'' (n # ms)
            else rel @ ''/'' @ joinWith ''/'' (n # ms))"
      using Cons by (simp add: relJoin_def)
    finally show ?thesis .
  qed
qed

lemma foldl_pathJoin:
  assumes "\<forall>n\<in>set names. n \<noteq> []" and "names \<noteq> []"
  shows "foldl pathJoin dir names = (if dir = ''/'' then [] else dir) @ ''/'' @ joinWith ''/'' names"
  using assms
proof (induction names arbitrary: dir)
  case Nil
  then show ?case by simp
next
  case (Cons n ms)
  then have n: "n \<noteq> []" and ms: "\<forall>m\<in>set ms. m \<noteq> []"
    by simp_all
  have d: "pathJoin dir n \<noteq> ''/''"
    using n by (cases n) (auto simp: pathJoin_def)
  show ?case
  proof (cases ms)
    case Nil
    then show ?thesis by (simp add: pathJoin_def)
  next
    case (Cons m ms')
    have "foldl pathJoin dir (n # ms) = foldl pathJoin (pathJoin dir n) ms"
      by simp
    also have "\<dots> = pathJoin dir n @ ''/'' @ joinWith ''/'' ms"
      using Cons.IH [OF ms, of "pathJoin dir n"] d Cons by simp
    also have "\<dots> = (if dir = ''/'' then [] else dir) @ ''/'' @ joinWith ''/'' (n # ms)"
      using Cons by (simp add: pathJoin_def)
    finally show ?thesis .
  qed
qed

lemma wellNamed_member: "wellNamed es \<Longrightarrow> e \<in> set es \<Longrightarrow> wellNamedEntry e"
  by (induction es) auto

lemma isFileAt_names:
  "wellNamed es \<Longrightarrow> isFileAt es names \<Longrightarrow> names \<noteq> [] \<and> (\<forall>n\<in>set names. n \<noteq> [])"
proof (induction names arbitrary: es)
  case Nil
  then show ?case by simp
next
  case (Cons n ms)
  show ?case
  proof (cases ms)
    case Nil
    then have "FileEntry n \<in> set es" using Cons.prems by simp
    then have "wellNamedEntry (FileEntry n)"
      using Cons.prems(1) wellNamed_member by blast
    then show ?thesis using Nil by simp
  next
    case (Cons m ms')
    then obtain sub where sub: "DirEntry n sub \<in> set es" "isFileAt sub ms"
      using Cons.prems(2) by (auto simp: list_ex_DirEntry)
    then have "wellNamedEntry (DirEntry n sub)"
      using Cons.prems(1) wellNamed_member by blast
    then have "n \<noteq> []" "wellNamed sub" by simp_all
    then show ?thesis
      using Cons.IH [of sub] sub by simp
  qed
qed

section \<open>The example project, evaluated\<close>

lemma example_walk:
  "walkDir (Some exampleEntries) ''/r'' [''generated''] = [''/r/src/a.ts'', ''/r/src/b.tsx'']"
  by (simp add: walkDir_def exampleEntries_def SKIP_DIRS_def excluded_def relJoin_def pathJoin_def
      isSourceName_def endsWith_def)

lemma example_walk_src:
  "walkDir (Some [FileEntry ''a.ts'']) ''/r/src'' [] = [''/r/src/a.ts'']"
  by (simp add: walkDir_def excluded_def relJoin_def pathJoin_def isSourceName_def endsWith_def)

lemma example_countFile:
  "countFile exampleRead exampleParse ''/r/src/a.ts'' =
     \<lparr>classes = 1, methods = 2, functions' = 0, arrowFunctions = 0\<rparr>"
  "countFile exampleRead exampleParse ''/r/src/b.tsx'' =
     \<lparr>classes = 0, methods = 0, functions' = 3, arrowFunctions = 5\<rparr>"
  by (simp_all add: countFile_def exampleRead_def exampleParse_def scriptKindOf_def endsWith_def
      exampleTreeA_def exampleTreeB_def zeroCounts_def)

lemma example_totals_src:
  "processFiles exampleRead exampleParse [''/r/src/a.ts''] =
     \<lparr>classes = 1, methods = 2, functions' = 0, arrowFunctions = 0\<rparr>"
  by (simp add: processFiles_sums example_countFile)

lemma example_walk_separator:
  "walkDir (Some exampleEntries) ''/r'' [''rc/gen''] = [''/r/src/a.ts'', ''/r/src/b.tsx'']"
  by (simp add: walkDir_def exampleEntries_def SKIP_DIRS_def excluded_def relJoin_def pathJoin_def
      isSourceName_def endsWith_def)

lemma example_wellNamed: "wellNamed exampleEntries"
  by (simp add: exampleEntries_def)

section \<open>Claims about the classifier\<close>

text \<open>
  C1. A source file whose children are one top-level class declaration among nodes of
  untallied kinds, the class subtree holding exactly one method, one getter and one
  setter and no other node of a tallied kind, is classified as classes = 1, methods = 3,
  functions = 0, arrows = 0.
\<close>

theorem C1_one_class_three_members:
  assumes pre: "nodesOfKindIn isTallied pre = 0"
    and post: "nodesOfKindIn isTallied post = 0"
    and m: "nodesOfKindIn (\<lambda>k. k = MethodDeclaration) body = 1"
    and g: "nodesOfKindIn (\<lambda>k. k = GetAccessor) body = 1"
    and s: "nodesOfKindIn (\<lambda>k. k = SetAccessor) body = 1"
    and rest: "nodesOfKindIn
        (\<lambda>k. isTallied k \<and> k \<noteq> MethodDeclaration \<and> k \<noteq> GetAccessor \<and> k \<noteq> SetAccessor) body = 0"
  shows "forEachChild (pre @ Node ClassDeclaration body # post) zeroCounts False =
           \<lparr>classes = 1, methods = 3, functions' = 0, arrowFunctions = 0\<rparr>"
proof -
  have cls: "nodesOfKindIn isClassLike body = 0"
    by (rule nodesOfKind_mono(2) [OF _ rest]) (auto simp: isClassLike_def isTallied_def)
  have fd: "nodesOfKindIn (\<lambda>k. k = FunctionDeclaration) body = 0"
    by (rule nodesOfKind_mono(2) [OF _ rest]) (auto simp: isTallied_def)
  have con: "nodesOfKindIn (\<lambda>k. k = Constructor) body = 0"
    by (rule nodesOfKind_mono(2) [OF _ rest]) (auto simp: isTallied_def)
  have "nodesOfKindIn isMethodLike body =
          nodesOfKindIn (\<lambda>k. k = MethodDeclaration) body
        + (nodesOfKindIn (\<lambda>k. k = GetAccessor) body
        + (nodesOfKindIn (\<lambda>k. k = SetAccessor) body
        + nodesOfKindIn (\<lambda>k. k = Constructor) body))"
    unfolding isMethodLike_def
    by (subst nodesOfKind_disj(2), force)+ simp
  then have meth: "nodesOfKindIn isMethodLike body = 3"
    using m g s con by simp
  have "forEachChild (pre @ Node ClassDeclaration body # post) zeroCounts False =
          forEachChild body (zeroCounts\<lparr>classes := 1\<rparr>) True"
    by (simp add: forEachChild_append plain_unchanged(2) [OF pre] plain_unchanged(2) [OF post]
        zeroCounts_def)
  also have "\<dots> = \<lparr>classes = 1, methods = 3, functions' = 0, arrowFunctions = 0\<rparr>"
    by (simp add: inClass_tally(2) cls fd meth zeroCounts_def)
  finally show ?thesis .
qed

text \<open>
  The theorem at a class with an identifier, a method, a getter and a setter, between an
  import and the end-of-file token.
\<close>

theorem C1_witness:
  "forEachChild
     ([Node (OtherKind ''ImportDeclaration'') []]
      @ Node ClassDeclaration
          [Node (OtherKind ''Identifier'') [],
           Node MethodDeclaration [Node (OtherKind ''Block'') []],
           Node GetAccessor [Node (OtherKind ''Block'') []],
           Node SetAccessor [Node (OtherKind ''Parameter'') [], Node (OtherKind ''Block'') []]]
      # [Node (OtherKind ''EndOfFileToken'') []]) zeroCounts False =
   \<lparr>classes = 1, methods = 3, functions' = 0, arrowFunctions = 0\<rparr>"
  by (rule C1_one_class_three_members) (simp_all add: isTallied_def)

text \<open>
  C2. A class whose single method holds an inner arrow expression and an inner function
  expression: inside the class the method's subtree leaves every bucket as it was, and
  the file is classified as classes = 1, methods = 1, functions = 0, arrows = 0.
\<close>

theorem C2_inner_functions_dropped:
  assumes cls: "isClassLike ck"
    and pre: "nodesOfKindIn isTallied pre = 0"
    and post: "nodesOfKindIn isTallied post = 0"
    and before: "nodesOfKindIn isTallied before = 0"
    and after: "nodesOfKindIn isTallied after = 0"
    and arrow: "nodesOfKindIn (\<lambda>k. k = ArrowFunction) inner = 1"
    and fexp: "nodesOfKindIn (\<lambda>k. k = FunctionExpression) inner = 1"
    and rest: "nodesOfKindIn
        (\<lambda>k. isTallied k \<and> k \<noteq> ArrowFunction \<and> k \<noteq> FunctionExpression) inner = 0"
  shows "forEachChild inner counts True = counts \<and>
         forEachChild (pre @ Node ck (before @ Node MethodDeclaration inner # after) # post)
           zeroCounts False =
         \<lparr>classes = 1, methods = 1, functions' = 0, arrowFunctions = 0\<rparr>"
proof -
  have c0: "nodesOfKindIn isClassLike inner = 0"
    by (rule nodesOfKind_mono(2) [OF _ rest]) (auto simp: isClassLike_def isTallied_def)
  have m0: "nodesOfKindIn isMethodLike inner = 0"
    by (rule nodesOfKind_mono(2) [OF _ rest]) (auto simp: isMethodLike_def isTallied_def)
  have f0: "nodesOfKindIn (\<lambda>k. k = FunctionDeclaration) inner = 0"
    by (rule nodesOfKind_mono(2) [OF _ rest]) (auto simp: isTallied_def)
  have inner: "forEachChild inner c True = c" for c
    by (simp add: inClass_tally(2) c0 m0 f0)
  have "forEachChild (pre @ Node ck (before @ Node MethodDeclaration inner # after) # post)
          zeroCounts False =
        forEachChild (before @ Node MethodDeclaration inner # after) (zeroCounts\<lparr>classes := 1\<rparr>) True"
    using cls
    by (auto simp: isClassLike_def forEachChild_append plain_unchanged(2) [OF pre]
        plain_unchanged(2) [OF post] zeroCounts_def)
  also have "\<dots> = \<lparr>classes = 1, methods = 1, functions' = 0, arrowFunctions = 0\<rparr>"
    by (simp add: forEachChild_append plain_unchanged(2) [OF before] plain_unchanged(2) [OF after]
        inner zeroCounts_def)
  finally show ?thesis
    using inner by simp
qed

text \<open>
  The theorem at \<open>class C { m() { const f = () => 1; const g = function () {}; } }\<close>.
\<close>

theorem C2_witness:
  "forEachChild
     [Node (OtherKind ''Block'')
       [Node (OtherKind ''VariableStatement'') [Node ArrowFunction []],
        Node (OtherKind ''VariableStatement'') [Node FunctionExpression [Node (OtherKind ''Block'') []]]]]
     zeroCounts True = zeroCounts \<and>
   forEachChild
     ([] @ Node ClassDeclaration
        ([Node (OtherKind ''Identifier'') []] @
         Node MethodDeclaration
           [Node (OtherKind ''Block'')
             [Node (OtherKind ''VariableStatement'') [Node ArrowFunction []],
              Node (OtherKind ''VariableStatement'')
                [Node FunctionExpression [Node (OtherKind ''Block'') []]]]] # [])
      # [Node (OtherKind ''EndOfFileToken'') []]) zeroCounts False =
   \<lparr>classes = 1, methods = 1, functions' = 0, arrowFunctions = 0\<rparr>"
  by (rule C2_inner_functions_dropped) (simp_all add: isTallied_def isClassLike_def)

text \<open>
  C3. A function declaration nested in a method body is met with \<open>inClass = true\<close>; the
  case for function declarations has no test of the flag, and the functions bucket
  grows by one: \<open>class C { m() { function f() {} } }\<close> is classified with
  functions = 1.
\<close>

theorem C3_function_declaration_in_class_is_counted:
  "forEachChild
     [Node ClassDeclaration
       [Node (OtherKind ''Identifier'') [],
        Node MethodDeclaration
          [Node (OtherKind ''Identifier'') [],
           Node (OtherKind ''Block'')
             [Node FunctionDeclaration
               [Node (OtherKind ''Identifier'') [], Node (OtherKind ''Block'') []]]]],
      Node (OtherKind ''EndOfFileToken'') []] zeroCounts False =
   \<lparr>classes = 1, methods = 1, functions' = 1, arrowFunctions = 0\<rparr>
   \<and> functions' (countNode (Node FunctionDeclaration []) zeroCounts True) = 1"
  by (simp add: zeroCounts_def)

text \<open>
  C4. A class declaration or class expression, whatever the incoming flag: the tally of
  the node is the tally of one pass over its children with the flag true, started from
  the incoming tally with classes one higher. In that pass every node of the subtree is
  tallied once: classes grows by one for the node and one for each class below it,
  methods by the number of method-like nodes below it, functions by the number of
  function declarations below it, and arrows not at all.
\<close>

theorem C4_class_node_single_pass:
  assumes "isClassLike k"
  shows "countNode (Node k cs) counts inClass =
           forEachChild cs (counts\<lparr>classes := classes counts + 1\<rparr>) True \<and>
         countNode (Node k cs) counts inClass =
           \<lparr>classes = classes counts + 1 + nodesOfKindIn isClassLike cs,
            methods = methods counts + nodesOfKindIn isMethodLike cs,
            functions' = functions' counts + nodesOfKindIn (\<lambda>k. k = FunctionDeclaration) cs,
            arrowFunctions = arrowFunctions counts\<rparr>"
proof -
  have pass: "countNode (Node k cs) counts inClass =
      forEachChild cs (counts\<lparr>classes := classes counts + 1\<rparr>) True"
    using assms by (auto simp: isClassLike_def)
  then show ?thesis
    by (simp add: inClass_tally(2))
qed

text \<open>
  The theorem at a class expression met outside any class, with a method that holds a
  nested class declaration.
\<close>

theorem C4_witness:
  "isClassLike ClassExpression \<and>
   countNode (Node ClassExpression [Node MethodDeclaration [Node ClassDeclaration []]]) zeroCounts False =
     forEachChild [Node MethodDeclaration [Node ClassDeclaration []]] (zeroCounts\<lparr>classes := classes zeroCounts + 1\<rparr>) True \<and>
   countNode (Node ClassExpression [Node MethodDeclaration [Node ClassDeclaration []]]) zeroCounts False =
     \<lparr>classes = 2, methods = 1, functions' = 0, arrowFunctions = 0\<rparr>"
  using C4_class_node_single_pass [of ClassExpression "[Node MethodDeclaration [Node ClassDeclaration []]]" zeroCounts False]
  by (simp add: isClassLike_def isMethodLike_def zeroCounts_def)

section \<open>Claims about the driver and the aggregator\<close>

text \<open>
  C5. After the loop over any list of files each field of the totals is the sum of that
  field of \<open>countFile\<close> over the list; a file whose read or parse throws adds zero to
  every field; and the file count of the report is the length of the list, such files
  included.
\<close>

theorem C5_totals_are_sums:
  "classes (processFiles rd parse files) = (\<Sum>file\<leftarrow>files. classes (countFile rd parse file)) \<and>
   methods (processFiles rd parse files) = (\<Sum>file\<leftarrow>files. methods (countFile rd parse file)) \<and>
   functions' (processFiles rd parse files) = (\<Sum>file\<leftarrow>files. functions' (countFile rd parse file)) \<and>
   arrowFunctions (processFiles rd parse files) =
     (\<Sum>file\<leftarrow>files. arrowFunctions (countFile rd parse file)) \<and>
   (\<forall>file\<in>set files.
      (\<exists>e. rd file = Inl e) \<or> (\<exists>source e. rd file = Inr source \<and> parse file source (scriptKindOf file) = Inl e)
      \<longrightarrow> countFile rd parse file = \<lparr>classes = 0, methods = 0, functions' = 0, arrowFunctions = 0\<rparr>) \<and>
   jsonField ''files'' (jsonReport dir files (processFiles rd parse files)) =
     Some (JNumber (of_nat (length files))) \<and>
   textReport files (processFiles rd parse files) ! 3 = ''Files: '' @ showNat (length files)"
proof -
  have "\<forall>file\<in>set files.
      (\<exists>e. rd file = Inl e) \<or> (\<exists>source e. rd file = Inr source \<and> parse file source (scriptKindOf file) = Inl e)
      \<longrightarrow> countFile rd parse file = \<lparr>classes = 0, methods = 0, functions' = 0, arrowFunctions = 0\<rparr>"
    by (auto simp: countFile_failure zeroCounts_def)
  moreover have "jsonField ''files'' (jsonReport dir files (processFiles rd parse files)) =
     Some (JNumber (of_nat (length files)))"
    by (simp add: jsonField_def jsonReport_def)
  moreover have "textReport files (processFiles rd parse files) ! 3 = ''Files: '' @ showNat (length files)"
    by (simp add: textReport_def)
  ultimately show ?thesis
    by (simp add: processFiles_sums)
qed

text \<open>
  The theorem at two files, the first parsed to a class and a function declaration, the
  second unreadable.
\<close>

theorem C5_witness:
  "classes (processFiles
      (\<lambda>p. if p = ''/r/a.ts'' then Inr ''class A {} function f() {}'' else Inl (Thrown ''EACCES''))
      (\<lambda>p s k. Inr (Node (OtherKind ''SourceFile'') [Node ClassDeclaration [], Node FunctionDeclaration []]))
      [''/r/a.ts'', ''/r/b.ts'']) = 1 \<and>
   functions' (processFiles
      (\<lambda>p. if p = ''/r/a.ts'' then Inr ''class A {} function f() {}'' else Inl (Thrown ''EACCES''))
      (\<lambda>p s k. Inr (Node (OtherKind ''SourceFile'') [Node ClassDeclaration [], Node FunctionDeclaration []]))
      [''/r/a.ts'', ''/r/b.ts'']) = 1 \<and>
   countFile
      (\<lambda>p. if p = ''/r/a.ts'' then Inr ''class A {} function f() {}'' else Inl (Thrown ''EACCES''))
      (\<lambda>p s k. Inr (Node (OtherKind ''SourceFile'') [Node ClassDeclaration [], Node FunctionDeclaration []]))
      ''/r/b.ts'' = \<lparr>classes = 0, methods = 0, functions' = 0, arrowFunctions = 0\<rparr> \<and>
   jsonField ''files'' (jsonReport ''/r'' [''/r/a.ts'', ''/r/b.ts'']
     (processFiles
      (\<lambda>p. if p = ''/r/a.ts'' then Inr ''class A {} function f() {}'' else Inl (Thrown ''EACCES''))
      (\<lambda>p s k. Inr (Node (OtherKind ''SourceFile'') [Node ClassDeclaration [], Node FunctionDeclaration []]))
      [''/r/a.ts'', ''/r/b.ts''])) = Some (JNumber 2)"
  using C5_totals_are_sums [of
      "\<lambda>p. if p = ''/r/a.ts'' then Inr ''class A {} function f() {}'' else Inl (Thrown ''EACCES'')"
      "\<lambda>p s k. Inr (Node (OtherKind ''SourceFile'') [Node ClassDeclaration [], Node FunctionDeclaration []])"
      "[''/r/a.ts'', ''/r/b.ts'']" "''/r''"]
  by (simp add: countFile_def zeroCounts_def)

text \<open>
  C6. The walk finds exactly two files, in either order. File A holds one class (a
  declaration or an expression, at any depth) with two methods below it and no function
  declaration, function expression or arrow; file B holds three function declarations
  and five arrow expressions and no class or function expression. Then the structured
  report has files = 2, oop = (total 3, classes 1, methods 2), fp = (total 8,
  functions 3, arrowFunctions 5) and as ratio the number 3422735716801577 / 2 ^ 53,
  which is the double nearest to 0.38; and the text report prints the ratio as \<open>0.38\<close>.
\<close>

theorem C6_two_file_scenario:
  assumes found: "walkDir listing dir ex = [fileA, fileB] \<or> walkDir listing dir ex = [fileB, fileA]"
    and readA: "rd fileA = Inr srcA"
    and parseA: "parse fileA srcA (scriptKindOf fileA) = Inr (Node skA csA)"
    and classA: "nodesOfKindIn isClassLike csA = 1"
    and methodsA: "insideClassIn isMethodLike csA = 2"
    and restA: "nodesOfKindIn
        (\<lambda>k. k = FunctionDeclaration \<or> k = FunctionExpression \<or> k = ArrowFunction) csA = 0"
    and readB: "rd fileB = Inr srcB"
    and parseB: "parse fileB srcB (scriptKindOf fileB) = Inr (Node skB csB)"
    and functionsB: "nodesOfKindIn (\<lambda>k. k = FunctionDeclaration) csB = 3"
    and arrowsB: "nodesOfKindIn (\<lambda>k. k = ArrowFunction) csB = 5"
    and restB: "nodesOfKindIn (\<lambda>k. isClassLike k \<or> k = FunctionExpression) csB = 0"
  shows "stdout (main listing rd parse dir ex True) =
           Document (JObject
             [(''directory'', JString dir),
              (''files'', JNumber 2),
              (''oop'', JObject [(''total'', JNumber 3), (''classes'', JNumber 1), (''methods'', JNumber 2)]),
              (''fp'', JObject
                 [(''total'', JNumber 8), (''functions'', JNumber 3), (''arrowFunctions'', JNumber 5)]),
              (''ratio'', JNumber (3422735716801577 / 9007199254740992))]) \<and>
         \<bar>(3422735716801577 / 9007199254740992 :: rat) - 38 / 100\<bar> < 1 / 2 ^ 55 \<and>
         stdout (main listing rd parse dir ex False) =
           Lines
             [''OOP: 3 (1 classes + 2 methods)'',
              ''FP:  8 (3 functions + 5 arrows)'',
              ''Ratio (OOP:FP): 0.38:1'',
              ''Files: 2'']"
proof -
  have fdA: "nodesOfKindIn (\<lambda>k. k = FunctionDeclaration) csA = 0"
    by (rule nodesOfKind_mono(2) [OF _ restA]) simp
  have feA: "nodesOfKindIn (\<lambda>k. k = FunctionExpression) csA = 0"
    by (rule nodesOfKind_mono(2) [OF _ restA]) simp
  have arA: "nodesOfKindIn (\<lambda>k. k = ArrowFunction) csA = 0"
    by (rule nodesOfKind_mono(2) [OF _ restA]) simp
  have outA: "outsideClassIn (\<lambda>k. k = FunctionExpression) csA = 0"
    "outsideClassIn (\<lambda>k. k = ArrowFunction) csA = 0"
    using outsideClass_le(2) [of "\<lambda>k. k = FunctionExpression" csA]
      outsideClass_le(2) [of "\<lambda>k. k = ArrowFunction" csA] feA arA
    by simp_all
  have A: "countFile rd parse fileA = \<lparr>classes = 1, methods = 2, functions' = 0, arrowFunctions = 0\<rparr>"
    by (simp add: countFile_def readA parseA file_tally(2) classA methodsA fdA outA zeroCounts_def)
  have cB: "nodesOfKindIn isClassLike csB = 0"
    by (rule nodesOfKind_mono(2) [OF _ restB]) simp
  have eB: "nodesOfKindIn (\<lambda>k. k = FunctionExpression) csB = 0"
    by (rule nodesOfKind_mono(2) [OF _ restB]) simp
  have "nodesOfKindIn (\<lambda>k. k = FunctionDeclaration \<or> k = FunctionExpression) csB =
          nodesOfKindIn (\<lambda>k. k = FunctionDeclaration) csB
        + nodesOfKindIn (\<lambda>k. k = FunctionExpression) csB"
    by (rule nodesOfKind_disj(2)) simp
  then have fB: "nodesOfKindIn (\<lambda>k. k = FunctionDeclaration \<or> k = FunctionExpression) csB = 3"
    using functionsB eB by simp
  have B: "countFile rd parse fileB = \<lparr>classes = 0, methods = 0, functions' = 3, arrowFunctions = 5\<rparr>"
    by (simp add: countFile_def readB parseB outside_tally(2) [OF _ cB] fB arrowsB zeroCounts_def)
  obtain files where files: "walkDir listing dir ex = files"
    and order: "files = [fileA, fileB] \<or> files = [fileB, fileA]"
    using found by blast
  have len: "length files = 2"
    using order by auto
  have t: "processFiles rd parse files =
             \<lparr>classes = 1, methods = 2, functions' = 3, arrowFunctions = 5\<rparr>"
    using order by (auto simp: processFiles_sums A B)
  let ?T = "processFiles rd parse files"
  have fields: "classes ?T = 1" "methods ?T = 2" "functions' ?T = 3" "arrowFunctions ?T = 5"
    by (simp_all add: t)
  have o: "oopTotal ?T = 3"
    by (simp add: oopTotal_def fields)
  have f: "fpTotal ?T = 8"
    by (simp add: fpTotal_def fields)
  have r: "ratio ?T = ''0.38''"
    by (simp add: ratio_def o f toFixed2_three_eighths)
  have n2: "showNat 2 = ''2''" "showNat 3 = ''3''" "showNat 8 = ''8''" "showNat (Suc 0) = ''1''"
    "showNat 5 = ''5''"
    by (simp_all add: showNat.simps digitChar_def)
  have structured: "stdout (main listing rd parse dir ex True) =
           Document (JObject
             [(''directory'', JString dir),
              (''files'', JNumber 2),
              (''oop'', JObject [(''total'', JNumber 3), (''classes'', JNumber 1), (''methods'', JNumber 2)]),
              (''fp'', JObject
                 [(''total'', JNumber 8), (''functions'', JNumber 3), (''arrowFunctions'', JNumber 5)]),
              (''ratio'', JNumber (3422735716801577 / 9007199254740992))])"
    by (simp add: main_def Let_def files len jsonReport_def r parseFloat_038 jsDivide_38_100
        numberToJson_def o f fields)
  have plain: "stdout (main listing rd parse dir ex False) =
           Lines
             [''OOP: 3 (1 classes + 2 methods)'',
              ''FP:  8 (3 functions + 5 arrows)'',
              ''Ratio (OOP:FP): 0.38:1'',
              ''Files: 2'']"
    by (simp add: main_def Let_def files len textReport_def r o f n2 fields)
  show ?thesis
    using structured plain nearest_038 by simp
qed

text \<open>The theorem at the example project, with the generated code excluded.\<close>

theorem C6_witness:
  "walkDir (Some exampleEntries) ''/r'' [''generated''] = [''/r/src/a.ts'', ''/r/src/b.tsx''] \<and>
   nodesOfKindIn isClassLike (children exampleTreeA) = 1 \<and>
   insideClassIn isMethodLike (children exampleTreeA) = 2 \<and>
   nodesOfKindIn (\<lambda>k. k = FunctionDeclaration) (children exampleTreeB) = 3 \<and>
   nodesOfKindIn (\<lambda>k. k = ArrowFunction) (children exampleTreeB) = 5 \<and>
   stdout (main (Some exampleEntries) exampleRead exampleParse ''/r'' [''generated''] True) =
     Document (JObject
       [(''directory'', JString ''/r''),
        (''files'', JNumber 2),
        (''oop'', JObject [(''total'', JNumber 3), (''classes'', JNumber 1), (''methods'', JNumber 2)]),
        (''fp'', JObject
           [(''total'', JNumber 8), (''functions'', JNumber 3), (''arrowFunctions'', JNumber 5)]),
        (''ratio'', JNumber (3422735716801577 / 9007199254740992))]) \<and>
   stdout (main (Some exampleEntries) exampleRead exampleParse ''/r'' [''generated''] False) =
     Lines
       [''OOP: 3 (1 classes + 2 methods)'',
        ''FP:  8 (3 functions + 5 arrows)'',
        ''Ratio (OOP:FP): 0.38:1'',
        ''Files: 2'']"
proof -
  have found: "walkDir (Some exampleEntries) ''/r'' [''generated''] = [''/r/src/a.ts'', ''/r/src/b.tsx''] \<or>
      walkDir (Some exampleEntries) ''/r'' [''generated''] = [''/r/src/b.tsx'', ''/r/src/a.ts'']"
    by (simp add: example_walk)
  have readA: "exampleRead ''/r/src/a.ts'' = Inr ''A''"
    by (simp add: exampleRead_def)
  have parseA: "exampleParse ''/r/src/a.ts'' ''A'' (scriptKindOf ''/r/src/a.ts'') =
      Inr (Node (OtherKind ''SourceFile'') (children exampleTreeA))"
    by (simp add: exampleParse_def scriptKindOf_def endsWith_def exampleTreeA_def)
  have classA: "nodesOfKindIn isClassLike (children exampleTreeA) = 1"
    by (simp add: exampleTreeA_def isClassLike_def)
  have methodsA: "insideClassIn isMethodLike (children exampleTreeA) = 2"
    by (simp add: exampleTreeA_def isClassLike_def isMethodLike_def)
  have restA: "nodesOfKindIn
      (\<lambda>k. k = FunctionDeclaration \<or> k = FunctionExpression \<or> k = ArrowFunction)
      (children exampleTreeA) = 0"
    by (simp add: exampleTreeA_def)
  have readB: "exampleRead ''/r/src/b.tsx'' = Inr ''B''"
    by (simp add: exampleRead_def)
  have parseB: "exampleParse ''/r/src/b.tsx'' ''B'' (scriptKindOf ''/r/src/b.tsx'') =
      Inr (Node (OtherKind ''SourceFile'') (children exampleTreeB))"
    by (simp add: exampleParse_def scriptKindOf_def endsWith_def exampleTreeB_def)
  have functionsB: "nodesOfKindIn (\<lambda>k. k = FunctionDeclaration) (children exampleTreeB) = 3"
    by (simp add: exampleTreeB_def)
  have arrowsB: "nodesOfKindIn (\<lambda>k. k = ArrowFunction) (children exampleTreeB) = 5"
    by (simp add: exampleTreeB_def)
  have restB: "nodesOfKindIn (\<lambda>k. isClassLike k \<or> k = FunctionExpression) (children exampleTreeB) = 0"
    by (simp add: exampleTreeB_def isClassLike_def)
  show ?thesis
    using C6_two_file_scenario [where fileA = "''/r/src/a.ts''" and fileB = "''/r/src/b.tsx''"
        and rd = exampleRead and parse = exampleParse,
        OF found readA parseA classA methodsA restA readB parseB functionsB arrowsB restB]
      example_walk classA methodsA functionsB arrowsB
    by simp
qed

text \<open>
  C7. When the functional total is 0 and the object-oriented total is positive, the
  ratio is the token \<open>inf\<close> and no division is evaluated: the four lines of text mode
  are printed, the third being \<open>Ratio (OOP:FP): inf:1\<close>.
\<close>

theorem C7_text_ratio_sentinel:
  assumes "fpTotal (processFiles rd parse (walkDir listing dir ex)) = 0"
    and "0 < oopTotal (processFiles rd parse (walkDir listing dir ex))"
  shows "ratio (processFiles rd parse (walkDir listing dir ex)) = ''inf'' \<and>
         stdout (main listing rd parse dir ex False) =
           Lines
            [''OOP: '' @ showNat (oopTotal (processFiles rd parse (walkDir listing dir ex))) @ '' (''
               @ showNat (classes (processFiles rd parse (walkDir listing dir ex))) @ '' classes + ''
               @ showNat (methods (processFiles rd parse (walkDir listing dir ex))) @ '' methods)'',
             ''FP:  0 (0 functions + 0 arrows)'',
             ''Ratio (OOP:FP): inf:1'',
             ''Files: '' @ showNat (length (walkDir listing dir ex))]"
proof -
  let ?t = "processFiles rd parse (walkDir listing dir ex)"
  have r: "ratio ?t = ''inf''"
    using assms(1) by (simp add: ratio_def)
  have f: "functions' ?t = 0" "arrowFunctions ?t = 0"
    using assms(1) by (simp_all add: fpTotal_def)
  show ?thesis
    using assms(1) by (simp add: main_def Let_def textReport_def r f showNat_0)
qed

text \<open>The theorem at \<open>/r/src\<close> holding only the class file of the example.\<close>

theorem C7_witness:
  "fpTotal (processFiles exampleRead exampleParse (walkDir (Some [FileEntry ''a.ts'']) ''/r/src'' [])) = 0 \<and>
   0 < oopTotal (processFiles exampleRead exampleParse (walkDir (Some [FileEntry ''a.ts'']) ''/r/src'' [])) \<and>
   stdout (main (Some [FileEntry ''a.ts'']) exampleRead exampleParse ''/r/src'' [] False) =
     Lines
       [''OOP: 3 (1 classes + 2 methods)'',
        ''FP:  0 (0 functions + 0 arrows)'',
        ''Ratio (OOP:FP): inf:1'',
        ''Files: 1'']"
proof -
  let ?T = "processFiles exampleRead exampleParse (walkDir (Some [FileEntry ''a.ts'']) ''/r/src'' [])"
  have fp: "fpTotal ?T = 0"
    by (simp add: example_walk_src example_totals_src fpTotal_def)
  have oop: "0 < oopTotal ?T"
    by (simp add: example_walk_src example_totals_src oopTotal_def)
  have n: "showNat (oopTotal ?T) = ''3''" "showNat (classes ?T) = ''1''" "showNat (methods ?T) = ''2''"
    "showNat (length (walkDir (Some [FileEntry ''a.ts'']) ''/r/src'' [])) = ''1''"
    by (simp_all add: example_walk_src example_totals_src oopTotal_def showNat.simps digitChar_def)
  show ?thesis
    using C7_text_ratio_sentinel [OF fp oop] fp oop by (simp add: n)
qed

text \<open>
  C8. In structured mode with a functional total of 0, \<open>parseFloat\<close> of the token
  \<open>inf\<close> is \<open>NaN\<close>, which is serialised as \<open>null\<close>: the document has all five fields,
  the ratio being \<open>null\<close>, and nothing is written to the diagnostic stream.
\<close>

theorem C8_json_ratio_null:
  assumes "fpTotal (processFiles rd parse (walkDir listing dir ex)) = 0"
  shows "parseFloat ''inf'' = NaN \<and> numberToJson NaN = JNull \<and>
         main listing rd parse dir ex True =
           \<lparr>stderr = [],
            stdout = Document (JObject
             [(''directory'', JString dir),
              (''files'', JNumber (of_nat (length (walkDir listing dir ex)))),
              (''oop'', JObject
                 [(''total'', JNumber (of_nat (oopTotal (processFiles rd parse (walkDir listing dir ex))))),
                  (''classes'', JNumber (of_nat (classes (processFiles rd parse (walkDir listing dir ex))))),
                  (''methods'', JNumber (of_nat (methods (processFiles rd parse (walkDir listing dir ex)))))]),
              (''fp'', JObject
                 [(''total'', JNumber 0), (''functions'', JNumber 0), (''arrowFunctions'', JNumber 0)]),
              (''ratio'', JNull)])\<rparr>"
proof -
  let ?t = "processFiles rd parse (walkDir listing dir ex)"
  have r: "ratio ?t = ''inf''"
    using assms by (simp add: ratio_def)
  have f: "functions' ?t = 0" "arrowFunctions ?t = 0"
    using assms by (simp_all add: fpTotal_def)
  have n: "numberToJson NaN = JNull"
    by (simp add: numberToJson_def)
  show ?thesis
    using assms by (simp add: main_def Let_def jsonReport_def r f n parseFloat_inf)
qed

text \<open>The same directory in structured mode.\<close>

theorem C8_witness:
  "fpTotal (processFiles exampleRead exampleParse (walkDir (Some [FileEntry ''a.ts'']) ''/r/src'' [])) = 0 \<and>
   main (Some [FileEntry ''a.ts'']) exampleRead exampleParse ''/r/src'' [] True =
     \<lparr>stderr = [],
      stdout = Document (JObject
        [(''directory'', JString ''/r/src''),
         (''files'', JNumber 1),
         (''oop'', JObject [(''total'', JNumber 3), (''classes'', JNumber 1), (''methods'', JNumber 2)]),
         (''fp'', JObject [(''total'', JNumber 0), (''functions'', JNumber 0), (''arrowFunctions'', JNumber 0)]),
         (''ratio'', JNull)])\<rparr>"
proof -
  let ?T = "processFiles exampleRead exampleParse (walkDir (Some [FileEntry ''a.ts'']) ''/r/src'' [])"
  have fp: "fpTotal ?T = 0"
    by (simp add: example_walk_src example_totals_src fpTotal_def)
  have n: "oopTotal ?T = 3" "classes ?T = 1" "methods ?T = 2"
    "length (walkDir (Some [FileEntry ''a.ts'']) ''/r/src'' []) = 1"
    by (simp_all add: example_walk_src example_totals_src oopTotal_def)
  show ?thesis
    using C8_json_ratio_null [OF fp] fp by (simp add: n)
qed

text \<open>
  C9. When reading the file throws, or parsing what was read throws, \<open>countFile\<close>
  returns the all-zero tally; its result is a tally in every case, never the failure.
\<close>

theorem C9_countFile_failure_is_zero:
  assumes "(\<exists>e. readFileSync filePath = Inl e) \<or>
           (\<exists>source e. readFileSync filePath = Inr source \<and>
              createSourceFile filePath source (scriptKindOf filePath) = Inl e)"
  shows "countFile readFileSync createSourceFile filePath =
           \<lparr>classes = 0, methods = 0, functions' = 0, arrowFunctions = 0\<rparr>"
  using assms by (auto simp: countFile_def zeroCounts_def)

text \<open>The theorem at a file that cannot be read and at a file that cannot be parsed.\<close>

theorem C9_witness:
  "countFile (\<lambda>p. Inl (Thrown ''ENOENT'')) (\<lambda>p s k. Inr (Node (OtherKind ''SourceFile'') []))
     ''/r/a.ts'' = \<lparr>classes = 0, methods = 0, functions' = 0, arrowFunctions = 0\<rparr> \<and>
   countFile (\<lambda>p. Inr ''class'') (\<lambda>p s k. Inl (Thrown ''parse'')) ''/r/a.tsx'' =
     \<lparr>classes = 0, methods = 0, functions' = 0, arrowFunctions = 0\<rparr>"
  using C9_countFile_failure_is_zero [of "\<lambda>p. Inl (Thrown ''ENOENT'')" "''/r/a.ts''"
      "\<lambda>p s k. Inr (Node (OtherKind ''SourceFile'') [])"]
    C9_countFile_failure_is_zero [of "\<lambda>p. Inr ''class''" "''/r/a.tsx''"
      "\<lambda>p s k. Inl (Thrown ''parse'')"]
  by simp

section \<open>Claim about the walker\<close>

text \<open>
  C10. The tree holds the entries on disk below the root, every name non-empty, and
  \<open>names\<close> are the names from the root down to an entry; the relative path is the names
  joined by the separator, the full path the root, a separator and the relative path. A
  path is in the result of the walk exactly when it is the path of a regular file reached
  through directories that can be read, whose name ends in \<open>.ts\<close> or \<open>.tsx\<close> and not in
  \<open>.d.ts\<close>, whose relative path contains no exclusion substring, and for which every
  directory passed below the root (the prefixes \<open>take i names\<close>) has a bare name outside
  the skip set and a relative path containing no exclusion substring. The root itself is
  walked whatever its name; when it cannot be read the result is empty.
\<close>

theorem C10_walker_membership:
  assumes "wellNamed entries"
  shows "(p \<in> set (walkDir (Some entries) dir ex) \<longleftrightarrow>
      (\<exists>names. p = (if dir = ''/'' then [] else dir) @ ''/'' @ joinWith ''/'' names \<and>
         isFileAt entries names \<and>
         ((\<exists>u. last names = u @ ''.ts'') \<or> (\<exists>u. last names = u @ ''.tsx'')) \<and>
         \<not> (\<exists>u. last names = u @ ''.d.ts'') \<and>
         (\<forall>pat\<in>set ex. \<not> occursIn pat (joinWith ''/'' names)) \<and>
         (\<forall>i\<in>{1..<length names}.
            last (take i names) \<notin> SKIP_DIRS \<and>
            (\<forall>pat\<in>set ex. \<not> occursIn pat (joinWith ''/'' (take i names)))))) \<and>
    walkDir None dir ex = []"
proof -
  let ?R = "\<lambda>names. p = (if dir = ''/'' then [] else dir) @ ''/'' @ joinWith ''/'' names \<and>
         isFileAt entries names \<and>
         ((\<exists>u. last names = u @ ''.ts'') \<or> (\<exists>u. last names = u @ ''.tsx'')) \<and>
         \<not> (\<exists>u. last names = u @ ''.d.ts'') \<and>
         (\<forall>pat\<in>set ex. \<not> occursIn pat (joinWith ''/'' names)) \<and>
         (\<forall>i\<in>{1..<length names}.
            last (take i names) \<notin> SKIP_DIRS \<and>
            (\<forall>pat\<in>set ex. \<not> occursIn pat (joinWith ''/'' (take i names))))"
  have step: "(p = foldl pathJoin dir names \<and> collects ex [] entries names) \<longleftrightarrow> ?R names" for names
  proof (cases "isFileAt entries names")
    case False
    then show ?thesis by (simp add: collects_iff)
  next
    case True
    then have ne: "names \<noteq> []" and all: "\<forall>n\<in>set names. n \<noteq> []"
      using isFileAt_names [OF assms] by blast+
    have full: "foldl pathJoin dir names = (if dir = ''/'' then [] else dir) @ ''/'' @ joinWith ''/'' names"
      by (rule foldl_pathJoin [OF all ne])
    have rel: "foldl relJoin [] names = joinWith ''/'' names"
      using foldl_relJoin [OF all, of "[]"] ne by simp
    have pre: "foldl relJoin [] (take i names) = joinWith ''/'' (take i names)"
      if "i \<in> {1..<length names}" for i
    proof -
      have "\<forall>n\<in>set (take i names). n \<noteq> []"
        using all by (meson in_set_takeD)
      moreover have "take i names \<noteq> []"
        using that ne by auto
      ultimately show ?thesis
        using foldl_relJoin [of "take i names" "[]"] by simp
    qed
    have dirs: "(\<forall>i\<in>{1..<length names}.
            last (take i names) \<notin> SKIP_DIRS \<and> \<not> excluded ex (foldl relJoin [] (take i names))) \<longleftrightarrow>
        (\<forall>i\<in>{1..<length names}.
            last (take i names) \<notin> SKIP_DIRS \<and>
            (\<forall>pat\<in>set ex. \<not> occursIn pat (joinWith ''/'' (take i names))))"
      by (intro ball_cong refl) (simp add: pre excluded_iff)
    have ext: "isSourceName (last names) \<longleftrightarrow>
        ((\<exists>u. last names = u @ ''.ts'') \<or> (\<exists>u. last names = u @ ''.tsx'')) \<and>
         \<not> (\<exists>u. last names = u @ ''.d.ts'')"
      by (simp only: isSourceName_def endsWith_iff)
    have own: "\<not> excluded ex (joinWith ''/'' names) \<longleftrightarrow>
        (\<forall>pat\<in>set ex. \<not> occursIn pat (joinWith ''/'' names))"
      by (simp only: excluded_iff bex_simps)
    show ?thesis
      unfolding collects_iff [of ex "[]" entries names] full rel dirs ext own
      using True by (simp only: conj_assoc)
  qed
  have "p \<in> set (walkDir (Some entries) dir ex) \<longleftrightarrow>
      (\<exists>names. p = foldl pathJoin dir names \<and> collects ex [] entries names)"
    by (simp add: walkDir_def walk_collects(1))
  also have "\<dots> \<longleftrightarrow> (\<exists>names. ?R names)"
    by (simp only: step)
  finally show ?thesis
    by (simp add: walkDir_def)
qed

text \<open>
  Without the two restrictions the equivalence fails. A root named \<open>dist\<close> is walked and
  its source collected, although the name of the root is in the skip set. And the source
  \<open>secret/s.ts\<close> of the example exists on disk, has a source name and no skipped or
  excluded directory above it, yet is not collected, since \<open>secret\<close> cannot be read.
\<close>

theorem C10_counterexample:
  "''/r/dist/a.ts'' \<in> set (walkDir (Some [FileEntry ''a.ts'']) ''/r/dist'' []) \<and>
   basename ''/r/dist'' \<in> SKIP_DIRS \<and>
   existsAt exampleEntries [''secret'', ''s.ts''] \<and>
   endsWith ''s.ts'' ''.ts'' \<and> \<not> endsWith ''s.ts'' ''.d.ts'' \<and>
   ''secret'' \<notin> SKIP_DIRS \<and>
   \<not> excluded [''generated''] ''secret'' \<and> \<not> excluded [''generated''] ''secret/s.ts'' \<and>
   ''/r/secret/s.ts'' \<notin> set (walkDir (Some exampleEntries) ''/r'' [''generated''])"
proof -
  have "walkDir (Some [FileEntry ''a.ts'']) ''/r/dist'' [] = [''/r/dist/a.ts'']"
    by (simp add: walkDir_def excluded_def relJoin_def pathJoin_def isSourceName_def endsWith_def)
  moreover have "basename ''/r/dist'' \<in> SKIP_DIRS"
    by (simp add: basename_def SKIP_DIRS_def)
  moreover have "existsAt exampleEntries [''secret'', ''s.ts'']"
    by (simp add: exampleEntries_def)
  moreover have "''secret'' \<notin> SKIP_DIRS"
    by (simp add: SKIP_DIRS_def)
  moreover have "\<not> excluded [''generated''] ''secret''" "\<not> excluded [''generated''] ''secret/s.ts''"
    by (simp_all add: excluded_def)
  ultimately show ?thesis
    by (simp add: example_walk endsWith_def)
qed

text \<open>
  The theorem at the example project with the exclusion substring \<open>rc/gen\<close>, which
  spans a separator of the relative path \<open>src/generated\<close>: \<open>src/a.ts\<close> is collected and
  satisfies the conditions, \<open>src/generated/g.ts\<close> is not and does not.
\<close>

theorem C10_witness:
  "wellNamed exampleEntries \<and>
   ''/r/src/a.ts'' \<in> set (walkDir (Some exampleEntries) ''/r'' [''rc/gen'']) \<and>
   (\<exists>names. ''/r/src/a.ts'' = (if ''/r'' = ''/'' then [] else ''/r'') @ ''/'' @ joinWith ''/'' names \<and>
      isFileAt exampleEntries names \<and>
      ((\<exists>u. last names = u @ ''.ts'') \<or> (\<exists>u. last names = u @ ''.tsx'')) \<and>
      \<not> (\<exists>u. last names = u @ ''.d.ts'') \<and>
      (\<forall>pat\<in>set [''rc/gen'']. \<not> occursIn pat (joinWith ''/'' names)) \<and>
      (\<forall>i\<in>{1..<length names}.
         last (take i names) \<notin> SKIP_DIRS \<and>
         (\<forall>pat\<in>set [''rc/gen'']. \<not> occursIn pat (joinWith ''/'' (take i names))))) \<and>
   ''/r/src/generated/g.ts'' \<notin> set (walkDir (Some exampleEntries) ''/r'' [''rc/gen'']) \<and>
   \<not> (\<exists>names. ''/r/src/generated/g.ts'' =
        (if ''/r'' = ''/'' then [] else ''/r'') @ ''/'' @ joinWith ''/'' names \<and>
      isFileAt exampleEntries names \<and>
      ((\<exists>u. last names = u @ ''.ts'') \<or> (\<exists>u. last names = u @ ''.tsx'')) \<and>
      \<not> (\<exists>u. last names = u @ ''.d.ts'') \<and>
      (\<forall>pat\<in>set [''rc/gen'']. \<not> occursIn pat (joinWith ''/'' names)) \<and>
      (\<forall>i\<in>{1..<length names}.
         last (take i names) \<notin> SKIP_DIRS \<and>
         (\<forall>pat\<in>set [''rc/gen'']. \<not> occursIn pat (joinWith ''/'' (take i names)))))"
proof -
  have kept: "''/r/src/a.ts'' \<in> set (walkDir (Some exampleEntries) ''/r'' [''rc/gen''])"
    by (simp add: example_walk_separator)
  have dropped: "''/r/src/generated/g.ts'' \<notin> set (walkDir (Some exampleEntries) ''/r'' [''rc/gen''])"
    by (simp add: example_walk_separator)
  note a = C10_walker_membership [OF example_wellNamed, of "''/r/src/a.ts''" "''/r''" "[''rc/gen'']",
      THEN conjunct1]
  note g = C10_walker_membership [OF example_wellNamed, of "''/r/src/generated/g.ts''" "''/r''"
      "[''rc/gen'']", THEN conjunct1]
  show ?thesis
    using example_wellNamed kept dropped a [THEN iffD1, OF kept] g dropped by blast
qed

end
